theory Spec2Isabelle
  imports Complex_Main "HOL-Library.Multiset"
begin

section \<open>Rating engine\<close>

text \<open>
  The rating arithmetic of the application (\<^verbatim>\<open>K_FACTOR\<close>, \<^verbatim>\<open>calculateExpected\<close>,
  \<^verbatim>\<open>updateElo\<close>), in two readings. The first reading is exact arithmetic: JavaScript numbers
  are taken as real numbers, \<^verbatim>\<open>Math.pow(10, x)\<close> is \<open>10 powr x\<close>, \<^verbatim>\<open>Math.floor\<close> is the floor
  of a real, and no operation rounds. It gives the formulas the functions stand for. The
  second reading, \<open>js_calculateExpected\<close> and \<open>js_updateElo\<close> below, is the arithmetic the
  program runs: IEEE 754 doubles, every operation rounded to nearest.
\<close>

definition K_FACTOR :: real where
  "K_FACTOR = 32"

definition calculateExpected :: "real \<Rightarrow> real \<Rightarrow> real" where
  "calculateExpected ratingA ratingB = 1 / (1 + 10 powr ((ratingB - ratingA) / 400))"

definition updateElo :: "real \<Rightarrow> real \<Rightarrow> real \<Rightarrow> int" where
  "updateElo oldRating expected score = \<lfloor>oldRating + K_FACTOR * (score - expected)\<rfloor>"

section \<open>Rating engine in double arithmetic\<close>

text \<open>
  A JavaScript number: a finite double (its value as a real), an infinity, or NaN. The sign
  of zero is not kept: \<^verbatim>\<open>-0\<close> is \<open>Fin 0\<close>.
\<close>

datatype js_num = Fin real | PInf | NInf | NaN

text \<open>
  Rounding of a real to the nearest double, ties to the even significand. \<open>expo x\<close> is the
  binary exponent of \<open>x\<close> (at least \<open>-1022\<close>: below that the doubles are subnormal and
  equally spaced), \<open>ulp x\<close> the distance of neighbouring doubles at \<open>x\<close> (53 significant
  bits), and \<open>fl\<close> gives an infinity when the rounded value leaves the range of doubles.
\<close>

definition round_even :: "real \<Rightarrow> int" where
  "round_even y =
    (let f = \<lfloor>y\<rfloor>; d = y - real_of_int f
     in if d < 1 / 2 then f else if 1 / 2 < d then f + 1 else if even f then f else f + 1)"

definition expo :: "real \<Rightarrow> int" where
  "expo x = max \<lfloor>log 2 \<bar>x\<bar>\<rfloor> (- 1022)"

definition ulp :: "real \<Rightarrow> real" where
  "ulp x = 2 powr real_of_int (expo x - 52)"

definition rnd :: "real \<Rightarrow> real" where
  "rnd x = (if x = 0 then 0 else real_of_int (round_even (x / ulp x)) * ulp x)"

definition fl :: "real \<Rightarrow> js_num" where
  "fl x = (let r = rnd x in if 2 ^ 1024 \<le> r then PInf else if r \<le> - (2 ^ 1024) then NInf else Fin r)"

text \<open>The operators \<^verbatim>\<open>+\<close>, \<^verbatim>\<open>-\<close>, \<^verbatim>\<open>*\<close>, \<^verbatim>\<open>/\<close> and \<^verbatim>\<open>Math.floor\<close> on numbers.\<close>

fun js_neg :: "js_num \<Rightarrow> js_num" where
  "js_neg (Fin a) = Fin (- a)"
| "js_neg PInf = NInf"
| "js_neg NInf = PInf"
| "js_neg NaN = NaN"

fun js_add :: "js_num \<Rightarrow> js_num \<Rightarrow> js_num" where
  "js_add (Fin a) (Fin b) = fl (a + b)"
| "js_add (Fin a) PInf = PInf"
| "js_add (Fin a) NInf = NInf"
| "js_add PInf (Fin b) = PInf"
| "js_add PInf PInf = PInf"
| "js_add NInf (Fin b) = NInf"
| "js_add NInf NInf = NInf"
| "js_add _ _ = NaN"

definition js_sub :: "js_num \<Rightarrow> js_num \<Rightarrow> js_num" where
  "js_sub a b = js_add a (js_neg b)"

definition js_inf :: "bool \<Rightarrow> js_num" where
  "js_inf positive = (if positive then PInf else NInf)"

fun js_mul :: "js_num \<Rightarrow> js_num \<Rightarrow> js_num" where
  "js_mul (Fin a) (Fin b) = fl (a * b)"
| "js_mul (Fin a) PInf = (if a = 0 then NaN else js_inf (0 < a))"
| "js_mul (Fin a) NInf = (if a = 0 then NaN else js_inf (a < 0))"
| "js_mul PInf (Fin b) = (if b = 0 then NaN else js_inf (0 < b))"
| "js_mul NInf (Fin b) = (if b = 0 then NaN else js_inf (b < 0))"
| "js_mul PInf PInf = PInf"
| "js_mul NInf NInf = PInf"
| "js_mul PInf NInf = NInf"
| "js_mul NInf PInf = NInf"
| "js_mul _ _ = NaN"

fun js_div :: "js_num \<Rightarrow> js_num \<Rightarrow> js_num" where
  "js_div (Fin a) (Fin b) =
     (if b = 0 then (if a = 0 then NaN else js_inf (0 < a)) else fl (a / b))"
| "js_div (Fin a) PInf = Fin 0"
| "js_div (Fin a) NInf = Fin 0"
| "js_div PInf (Fin b) = js_inf (0 \<le> b)"
| "js_div NInf (Fin b) = js_inf (b < 0)"
| "js_div _ _ = NaN"

fun js_floor :: "js_num \<Rightarrow> js_num" where
  "js_floor (Fin a) = Fin (real_of_int \<lfloor>a\<rfloor>)"
| "js_floor x = x"

text \<open>
  The two functions on doubles. \<^verbatim>\<open>Math.pow\<close> is a parameter: the language leaves its
  results to the implementation (an approximation of the power), so nothing is fixed about
  it here and each result states what it needs of it.
\<close>

definition js_calculateExpected ::
  "(js_num \<Rightarrow> js_num \<Rightarrow> js_num) \<Rightarrow> js_num \<Rightarrow> js_num \<Rightarrow> js_num" where
  "js_calculateExpected pow ratingA ratingB =
    js_div (Fin 1) (js_add (Fin 1) (pow (Fin 10) (js_div (js_sub ratingB ratingA) (Fin 400))))"

definition js_updateElo :: "js_num \<Rightarrow> js_num \<Rightarrow> js_num \<Rightarrow> js_num" where
  "js_updateElo oldRating expected score =
    js_floor (js_add oldRating (js_mul (Fin K_FACTOR) (js_sub score expected)))"

text \<open>
  \<open>pow_within pow t\<close>: the result of \<^verbatim>\<open>Math.pow(10, t)\<close> is finite and within one percent of
  the power. \<open>pow_rounded\<close> is the most accurate \<^verbatim>\<open>Math.pow\<close> there can be on finite
  arguments, the power rounded once.
\<close>

definition pow_within :: "(js_num \<Rightarrow> js_num \<Rightarrow> js_num) \<Rightarrow> real \<Rightarrow> bool" where
  "pow_within pow t =
    (case pow (Fin 10) (Fin t) of
       Fin p \<Rightarrow> \<bar>p - 10 powr t\<bar> \<le> 10 powr t / 100
     | _ \<Rightarrow> False)"

fun pow_rounded :: "js_num \<Rightarrow> js_num \<Rightarrow> js_num" where
  "pow_rounded (Fin a) (Fin b) = fl (a powr b)"
| "pow_rounded _ _ = NaN"

section \<open>Data model\<close>

text \<open>
  A document of the manga collection, with the fields written by \<^verbatim>\<open>handleUpload\<close>.
  The rating \<open>elo\<close> starts at 1500 and is afterwards only overwritten by results of
  \<^verbatim>\<open>Math.floor\<close>, so it is an integer. An element of \<^verbatim>\<open>mangaList\<close> is the document
  data together with the document id (\<^verbatim>\<open>{ id: doc.id, ...doc.data() }\<close>).
\<close>

record doc_data =
  title :: string
  author :: string
  password :: string
  imageUrl :: string
  storagePath :: string
  elo :: int
  createdAt :: nat
  uploaderUid :: string

record manga = doc_data +
  manga_id :: string

text \<open>
  The texts of the user messages are Japanese string literals in the source; each one is a
  constructor here. \<open>VoteFailed\<close> and \<open>DeleteFailed\<close> carry the error that was caught.
\<close>

datatype error = DocNotFound | ServiceError

datatype msg_type = MsgSuccess | MsgError

datatype msg_text =
    VoteFailed error
  | DeleteTargetMissing
  | Deleted
  | WrongPassword
  | DeleteFailed error

record message_rec =
  msg_type :: msg_type
  msg_text :: msg_text

section \<open>Match selector\<close>

text \<open>
  \<^verbatim>\<open>match\<close> is \<^verbatim>\<open>{ a: manga, b: manga }\<close>. An array read out of range gives
  \<^verbatim>\<open>undefined\<close> in JavaScript, which is \<open>None\<close> here.
\<close>

record match =
  match_a :: "manga option"
  match_b :: "manga option"

definition js_nth :: "'a list \<Rightarrow> int \<Rightarrow> 'a option" where
  "js_nth xs i = (if 0 \<le> i \<and> nat i < length xs then Some (xs ! nat i) else None)"

text \<open>
  \<^verbatim>\<open>Array.prototype.sort\<close> with a comparator is a stable sort: an element is placed before
  the first element it does not compare greater than.
\<close>

fun js_insert :: "('a \<Rightarrow> 'a \<Rightarrow> int) \<Rightarrow> 'a \<Rightarrow> 'a list \<Rightarrow> 'a list" where
  "js_insert cmp x [] = [x]"
| "js_insert cmp x (y # ys) = (if cmp x y \<le> 0 then x # y # ys else y # js_insert cmp x ys)"

definition js_sort :: "('a \<Rightarrow> 'a \<Rightarrow> int) \<Rightarrow> 'a list \<Rightarrow> 'a list" where
  "js_sort cmp xs = foldr (js_insert cmp) xs []"

text \<open>
  The loop \<^verbatim>\<open>while (indexA === indexB) indexB = Math.floor(Math.random() * n)\<close>.
  The values of \<^verbatim>\<open>Math.random()\<close> are taken from a list of draws; when the list is used up
  before the loop ends, the result is \<open>None\<close>.
\<close>

fun redraw :: "nat \<Rightarrow> int \<Rightarrow> int \<Rightarrow> real list \<Rightarrow> int option" where
  "redraw n indexA indexB [] = (if indexA = indexB then None else Some indexB)"
| "redraw n indexA indexB (r # rs) =
     (if indexA = indexB then redraw n indexA \<lfloor>r * real n\<rfloor> rs else Some indexB)"

text \<open>
  \<^verbatim>\<open>getNextMatch\<close> of \<^verbatim>\<open>VoteView\<close>. The result \<open>Some m\<close> is the value given to
  \<^verbatim>\<open>setMatch\<close> (\<open>m = None\<close> for \<^verbatim>\<open>setMatch(null)\<close>); the result \<open>None\<close> means that the
  draws ran out before the function returned.
\<close>

definition getNextMatch :: "manga list \<Rightarrow> real list \<Rightarrow> match option option" where
  "getNextMatch mangaList draws =
    (if length mangaList < 2 then Some None
     else
       let sortedList = js_sort (\<lambda>a b. elo a - elo b) mangaList in
       (case draws of
          [] \<Rightarrow> None
        | r0 # ds \<Rightarrow>
            if r0 < 0.5 then
              (case ds of
                 rA # rB # ds' \<Rightarrow>
                   let indexA = \<lfloor>rA * real (length mangaList)\<rfloor>;
                       indexB0 = \<lfloor>rB * real (length mangaList)\<rfloor>
                   in (case redraw (length mangaList) indexA indexB0 ds' of
                         None \<Rightarrow> None
                       | Some indexB \<Rightarrow>
                           Some (Some \<lparr>match_a = js_nth mangaList indexA,
                                       match_b = js_nth mangaList indexB\<rparr>))
               | _ \<Rightarrow> None)
            else
              (case ds of
                 [] \<Rightarrow> None
               | r1 # ds' \<Rightarrow>
                   let indexA = \<lfloor>r1 * real (length sortedList - 1)\<rfloor>;
                       indexB = indexA + 1
                   in Some (Some \<lparr>match_a = js_nth sortedList indexA,
                                   match_b = js_nth sortedList indexB\<rparr>))))"

text \<open>What \<^verbatim>\<open>VoteView\<close> renders: one of its two notices, or the two candidates.\<close>

datatype vote_screen = NeedTwoEntries | Preparing | ShowMatch manga manga

definition renderVoteView :: "manga list \<Rightarrow> match option \<Rightarrow> vote_screen" where
  "renderVoteView mangaList m =
    (case m of
       None \<Rightarrow> (if length mangaList < 2 then NeedTwoEntries else Preparing)
     | Some mt \<Rightarrow>
         (case (match_a mt, match_b mt) of
            (Some x, Some y) \<Rightarrow> ShowMatch x y
          | _ \<Rightarrow> (if length mangaList < 2 then NeedTwoEntries else Preparing)))"

text \<open>
  The draws that let \<^verbatim>\<open>getNextMatch\<close> return on a list of \<open>n\<close> entries: one draw for the
  branch, then either one draw for the sorted index, or two draws and, when they collide,
  a later draw that gives another index.
\<close>

definition enough_draws :: "nat \<Rightarrow> real list \<Rightarrow> bool" where
  "enough_draws n draws =
    (case draws of
       [] \<Rightarrow> False
     | r0 # ds \<Rightarrow>
         if r0 < 0.5 then
           (case ds of
              rA # rB # ds' \<Rightarrow> list_ex (\<lambda>r. \<lfloor>r * real n\<rfloor> \<noteq> \<lfloor>rA * real n\<rfloor>) (rB # ds')
            | _ \<Rightarrow> False)
         else ds \<noteq> [])"

section \<open>Vote and delete handlers\<close>

text \<open>
  The state the handlers of \<^verbatim>\<open>App\<close> work on: the Firestore collection \<open>db\<close> (document id to
  document), the blobs of the storage bucket (the set of paths that hold an object), and the
  React state \<open>mangaList\<close> (the snapshot last pushed to the client), \<open>isLoading\<close> and
  \<open>message\<close>.
\<close>

record app_state =
  db :: "string \<rightharpoonup> doc_data"
  storage :: "string set"
  mangaList :: "manga list"
  isLoading :: bool
  message :: "message_rec option"

text \<open>
  The calls to the external services (\<^verbatim>\<open>runTransaction\<close>, \<^verbatim>\<open>getDoc\<close>, \<^verbatim>\<open>deleteObject\<close>,
  \<^verbatim>\<open>deleteDoc\<close>) may be rejected by the service. Whether a call goes through is an input of
  the model: a flag per call, \<open>True\<close> when the service answers.
\<close>

definition getDoc :: "bool \<Rightarrow> (string \<rightharpoonup> doc_data) \<Rightarrow> string \<Rightarrow> error + doc_data option" where
  "getDoc ok store i = (if ok then Inr (store i) else Inl ServiceError)"

definition deleteObject :: "bool \<Rightarrow> string set \<Rightarrow> string \<Rightarrow> error + string set" where
  "deleteObject ok blobs path = (if ok then Inr (blobs - {path}) else Inl ServiceError)"

definition deleteDoc :: "bool \<Rightarrow> (string \<rightharpoonup> doc_data) \<Rightarrow> string \<Rightarrow> error + (string \<rightharpoonup> doc_data)" where
  "deleteDoc ok store i = (if ok then Inr (store(i := None)) else Inl ServiceError)"

text \<open>
  A transaction reads from the store it runs on and collects its writes
  (\<^verbatim>\<open>transaction.update(ref, { elo: v })\<close>); the writes are applied in order when the
  function given to \<^verbatim>\<open>runTransaction\<close> returns, and none is applied when it throws.
\<close>

definition transaction_update :: "(string \<rightharpoonup> doc_data) \<Rightarrow> string \<times> int \<Rightarrow> (string \<rightharpoonup> doc_data)" where
  "transaction_update store w =
    (case store (fst w) of
       None \<Rightarrow> store
     | Some d \<Rightarrow> store(fst w \<mapsto> d\<lparr>elo := snd w\<rparr>))"

definition runTransaction ::
  "bool \<Rightarrow> (string \<rightharpoonup> doc_data) \<Rightarrow> ((string \<rightharpoonup> doc_data) \<Rightarrow> error + (string \<times> int) list)
     \<Rightarrow> error + (string \<rightharpoonup> doc_data)" where
  "runTransaction ok store body =
    (if \<not> ok then Inl ServiceError
     else (case body store of
             Inl e \<Rightarrow> Inl e
           | Inr writes \<Rightarrow> Inr (foldl transaction_update store writes)))"

text \<open>The function that \<^verbatim>\<open>handleVote\<close> passes to \<^verbatim>\<open>runTransaction\<close>.\<close>

definition vote_transaction ::
  "string \<Rightarrow> string \<Rightarrow> (string \<rightharpoonup> doc_data) \<Rightarrow> error + (string \<times> int) list" where
  "vote_transaction winnerId loserId store =
    (case (store winnerId, store loserId) of
       (Some winner, Some loser) \<Rightarrow>
         let expectedWinner = calculateExpected (real_of_int (elo winner)) (real_of_int (elo loser));
             expectedLoser = calculateExpected (real_of_int (elo loser)) (real_of_int (elo winner));
             newWinnerElo = updateElo (real_of_int (elo winner)) expectedWinner 1;
             newLoserElo = updateElo (real_of_int (elo loser)) expectedLoser 0
         in Inr [(winnerId, newWinnerElo), (loserId, newLoserElo)]
     | _ \<Rightarrow> Inl DocNotFound)"

definition handleVote :: "bool \<Rightarrow> app_state \<Rightarrow> string \<Rightarrow> string \<Rightarrow> app_state" where
  "handleVote ok s winnerId loserId =
    (let s1 = s\<lparr>isLoading := True\<rparr>;
         s2 = (case runTransaction ok (db s1) (vote_transaction winnerId loserId) of
                 Inr store' \<Rightarrow> s1\<lparr>db := store'\<rparr>
               | Inl e \<Rightarrow> s1\<lparr>message := Some \<lparr>msg_type = MsgError, msg_text = VoteFailed e\<rparr>\<rparr>)
     in s2\<lparr>isLoading := False\<rparr>)"

text \<open>
  \<^verbatim>\<open>handleDelete\<close> returns whether the entry was deleted. The three flags say whether
  \<^verbatim>\<open>getDoc\<close>, \<^verbatim>\<open>deleteObject\<close> and \<^verbatim>\<open>deleteDoc\<close> go through.
\<close>

record delete_calls =
  getDoc_ok :: bool
  deleteObject_ok :: bool
  deleteDoc_ok :: bool

definition delete_failed :: "app_state \<Rightarrow> error \<Rightarrow> app_state \<times> bool" where
  "delete_failed s e =
    (s\<lparr>message := Some \<lparr>msg_type = MsgError, msg_text = DeleteFailed e\<rparr>, isLoading := False\<rparr>, False)"

definition handleDelete :: "delete_calls \<Rightarrow> app_state \<Rightarrow> string \<Rightarrow> string \<Rightarrow> app_state \<times> bool" where
  "handleDelete calls s id' password' =
    (let s1 = s\<lparr>isLoading := True\<rparr> in
     case getDoc (getDoc_ok calls) (db s1) id' of
       Inl e \<Rightarrow> delete_failed s1 e
     | Inr None \<Rightarrow>
         (s1\<lparr>message := Some \<lparr>msg_type = MsgError, msg_text = DeleteTargetMissing\<rparr>,
             isLoading := False\<rparr>, False)
     | Inr (Some mangaData) \<Rightarrow>
         if password mangaData = password' then
           (case deleteObject (deleteObject_ok calls) (storage s1) (storagePath mangaData) of
              Inl e \<Rightarrow> delete_failed s1 e
            | Inr blobs' \<Rightarrow>
                let s2 = s1\<lparr>storage := blobs'\<rparr> in
                (case deleteDoc (deleteDoc_ok calls) (db s2) id' of
                   Inl e \<Rightarrow> delete_failed s2 e
                 | Inr store' \<Rightarrow>
                     (s2\<lparr>db := store',
                         message := Some \<lparr>msg_type = MsgSuccess, msg_text = Deleted\<rparr>,
                         isLoading := False\<rparr>, True)))
         else
           (s1\<lparr>message := Some \<lparr>msg_type = MsgError, msg_text = WrongPassword\<rparr>,
               isLoading := False\<rparr>, False))"

section \<open>Example data\<close>

text \<open>Concrete entries, lists and states on which the results below are instantiated.\<close>

definition entry :: "string \<Rightarrow> int \<Rightarrow> manga" where
  "entry i r = \<lparr>title = ''t'', author = ''p'', password = ''0000'', imageUrl = ''u'',
     storagePath = ''img/'' @ i, elo = r, createdAt = 0, uploaderUid = ''uid'', manga_id = i\<rparr>"

definition stored_doc :: "string \<Rightarrow> string \<Rightarrow> int \<Rightarrow> doc_data" where
  "stored_doc pw path r = \<lparr>title = ''t'', author = ''p'', password = pw, imageUrl = ''u'',
     storagePath = path, elo = r, createdAt = 0, uploaderUid = ''uid''\<rparr>"

definition two_docs :: app_state where
  "two_docs =
    \<lparr>db = [''m1'' \<mapsto> stored_doc ''1234'' ''img/m1'' 1500, ''m2'' \<mapsto> stored_doc ''5678'' ''img/m2'' 1500],
     storage = {''img/m1'', ''img/m2''},
     mangaList = [entry ''m1'' 1400, entry ''m2'' 1600, entry ''m3'' 1500],
     isLoading = False,
     message = None\<rparr>"

definition three_entries :: "manga list" where
  "three_entries = [entry ''m1'' 1520, entry ''m2'' 1480, entry ''m3'' 1500]"

section \<open>Properties of the rating engine\<close>


lemma calculateExpected_flip: "calculateExpected b a = 1 - calculateExpected a b"
proof -
  define t where "t = 10 powr ((b - a) / 400)"
  have tpos: "0 < t" by (simp add: t_def)
  have e: "(a - b) / 400 = - ((b - a) / 400)" by argo
  have "10 powr ((a - b) / 400) = 1 / t" unfolding e by (simp add: t_def powr_minus_divide)
  then have "calculateExpected a b + calculateExpected b a = 1 / (1 + t) + 1 / (1 + 1 / t)"
    by (simp add: calculateExpected_def t_def[symmetric])
  also have "\<dots> = 1" using tpos by (simp add: field_simps)
  finally show ?thesis by simp
qed

lemma calculateExpected_range: "0 < calculateExpected a b \<and> calculateExpected a b < 1"
proof -
  have "0 < 10 powr ((b - a) / 400)" by simp
  then show ?thesis unfolding calculateExpected_def by (simp add: field_simps add_pos_pos)
qed




lemma ten_powr_5_4_pow4: "(10 powr (5 / 4 :: real)) ^ 4 = 100000"
proof -
  have "(10 powr (5 / 4 :: real)) ^ 4 = (10 powr (5 / 4)) powr (of_nat 4)"
    by (rule powr_realpow[symmetric]) simp
  also have "\<dots> = 10 powr 5" by (simp add: powr_powr)
  also have "\<dots> = 10 ^ 5" using powr_realpow[of "10::real" 5] by simp
  finally show ?thesis by simp
qed

lemma ten_powr_5_4_bounds:
  "(1777 / 100 :: real) < 10 powr (5 / 4) \<and> 10 powr (5 / 4) < (1779 / 100 :: real)"
proof -
  define x :: real where "x = 10 powr (5 / 4)"
  have x4: "x ^ 4 = 100000" unfolding x_def by (rule ten_powr_5_4_pow4)
  have xp: "0 < x" by (simp add: x_def)
  have lo: "1777 / 100 < x"
  proof (rule ccontr)
    assume "\<not> 1777 / 100 < x"
    then have "x \<le> 1777 / 100" by simp
    then have "x ^ 4 \<le> (1777 / 100) ^ 4" using xp by (intro power_mono) simp_all
    then show False unfolding x4 by (simp add: power_divide)
  qed
  have hi: "x < 1779 / 100"
  proof (rule ccontr)
    assume "\<not> x < 1779 / 100"
    then have "1779 / 100 \<le> x" by simp
    then have "(1779 / 100) ^ 4 \<le> x ^ 4" by (intro power_mono) simp_all
    then show False unfolding x4 by (simp add: power_divide)
  qed
  show ?thesis using lo hi by (simp add: x_def)
qed

lemma expected_1000_1500:
  "calculateExpected 1000 1500 = 1 / (1 + 10 powr (5 / 4))"
  by (simp add: calculateExpected_def)

lemma expected_1000_1500_bounds:
  "532 / 10000 < calculateExpected 1000 1500 \<and> calculateExpected 1000 1500 < 533 / 10000"
proof -
  define x :: real where "x = 10 powr (5 / 4)"
  have b: "1777 / 100 < x" "x < 1779 / 100" using ten_powr_5_4_bounds by (simp_all add: x_def)
  have "532 / 10000 < 1 / (1 + x)" using b by (simp add: field_simps)
  moreover have "1 / (1 + x) < 533 / 10000" using b by (simp add: field_simps)
  ultimately show ?thesis by (simp add: expected_1000_1500 x_def)
qed

lemma vote_1000_1500:
  "updateElo 1000 (calculateExpected 1000 1500) 1 = 1030 \<and>
   updateElo 1500 (calculateExpected 1500 1000) 0 = 1469"
proof -
  define e where "e = calculateExpected 1000 1500"
  have b: "532 / 10000 < e" "e < 533 / 10000" using expected_1000_1500_bounds by (simp_all add: e_def)
  have f: "calculateExpected 1500 1000 = 1 - e" unfolding e_def by (rule calculateExpected_flip)
  have "updateElo 1000 e 1 = \<lfloor>1000 + 32 * (1 - e)\<rfloor>" by (simp add: updateElo_def K_FACTOR_def)
  also have "\<dots> = 1030" unfolding floor_eq_iff using b by simp
  finally have w: "updateElo 1000 e 1 = 1030" .
  have "updateElo 1500 (1 - e) 0 = \<lfloor>1500 + 32 * (0 - (1 - e))\<rfloor>" by (simp add: updateElo_def K_FACTOR_def)
  also have "\<dots> = 1469" unfolding floor_eq_iff using b by simp
  finally have l: "updateElo 1500 (1 - e) 0 = 1469" .
  show ?thesis using w l unfolding f e_def by simp
qed


text \<open>
  Claim C2, as stated, fails: for a winner rated 1000 and a loser rated 1500 the exponent is
  500/400 = 5/4, so the winner's expected score is below 0.06 (not about 0.0909, which
  belongs to a gap of 400 points), and the new ratings are not 1029 and 1470.
\<close>

theorem C2_underdog_counterexample:
  "calculateExpected 1000 1500 < 6 / 100 \<and>
   updateElo 1000 (calculateExpected 1000 1500) 1 \<noteq> 1029 \<and>
   updateElo 1500 (calculateExpected 1500 1000) 0 \<noteq> 1470"
  using expected_1000_1500_bounds vote_1000_1500 by simp

text \<open>
  Claim C2, amended. For a winner rated 1000 and a loser rated 1500 the winner's expected
  score lies between 0.0532 and 0.0533, the loser's between 0.9467 and 0.9468, and the new
  ratings are 1030 for the winner and 1469 for the loser.
\<close>

theorem C2_underdog_amended:
  "532 / 10000 < calculateExpected 1000 1500 \<and> calculateExpected 1000 1500 < 533 / 10000 \<and>
   9467 / 10000 < calculateExpected 1500 1000 \<and> calculateExpected 1500 1000 < 9468 / 10000 \<and>
   updateElo 1000 (calculateExpected 1000 1500) 1 = 1030 \<and>
   updateElo 1500 (calculateExpected 1500 1000) 0 = 1469"
  using expected_1000_1500_bounds vote_1000_1500 calculateExpected_flip[of 1500 1000]
  by simp

text \<open>
  Claim C3. For all ratings \<open>a\<close> and \<open>b\<close> the two expected scores add up to 1, exactly, in
  real arithmetic.
\<close>

theorem C3_expected_symmetric:
  "calculateExpected a b + calculateExpected b a = 1"
  using calculateExpected_flip[of a b] by simp


section \<open>Properties of the match selector\<close>

lemma mset_js_insert: "mset (js_insert cmp x xs) = add_mset x (mset xs)"
  by (induction xs) simp_all

lemma mset_js_sort: "mset (js_sort cmp xs) = mset xs"
  unfolding js_sort_def by (induction xs) (simp_all add: mset_js_insert)

lemma length_js_sort: "length (js_sort cmp xs) = length xs"
  using mset_js_sort[of cmp xs] by (metis size_mset)

lemma set_js_sort: "set (js_sort cmp xs) = set xs"
  using mset_js_sort[of cmp xs] by (metis set_mset_mset)

lemma set_js_insert: "set (js_insert cmp x xs) = insert x (set xs)"
  using mset_js_insert[of cmp x xs] by (metis set_mset_mset set_mset_add_mset_insert)

lemma sorted_js_insert:
  "sorted_wrt (\<lambda>a b. elo a \<le> elo b) xs \<Longrightarrow>
   sorted_wrt (\<lambda>a b. elo a \<le> elo b) (js_insert (\<lambda>a b. elo a - elo b) x xs)"
proof (induction xs)
  case Nil
  then show ?case by simp
next
  case (Cons y ys)
  show ?case
  proof (cases "elo x - elo y \<le> 0")
    case True
    then have "\<forall>z\<in>set ys. elo x \<le> elo z" using Cons.prems by fastforce
    with True Cons.prems show ?thesis by simp
  next
    case False
    with Cons show ?thesis by (auto simp: set_js_insert)
  qed
qed

lemma sorted_js_sort:
  "sorted_wrt (\<lambda>a b. elo a \<le> elo b) (js_sort (\<lambda>a b. elo a - elo b) xs)"
proof (induction xs)
  case Nil
  then show ?case by (simp add: js_sort_def)
next
  case (Cons x xs)
  then show ?case using sorted_js_insert[of "js_sort (\<lambda>a b. elo a - elo b) xs" x]
    by (simp add: js_sort_def)
qed

lemma distinct_ids_js_sort:
  assumes "distinct (map manga_id xs)"
  shows "distinct (map manga_id (js_sort cmp xs))"
proof -
  have "mset (map manga_id (js_sort cmp xs)) = mset (map manga_id xs)"
    by (simp add: mset_js_sort)
  then show ?thesis using assms by (metis mset_eq_imp_distinct_iff)
qed

lemma distinct_ids_nth:
  assumes "distinct (map manga_id xs)" "i < length xs" "j < length xs" "i \<noteq> j"
  shows "manga_id (xs ! i) \<noteq> manga_id (xs ! j)"
  using assms by (metis length_map nth_eq_iff_index_eq nth_map)

lemma draw_index_range:
  assumes "0 \<le> r" "r < 1" "0 < n"
  shows "0 \<le> \<lfloor>r * real n\<rfloor> \<and> nat \<lfloor>r * real n\<rfloor> < n"
proof -
  have a: "0 \<le> r * real n" using assms by simp
  have "r * real n < real n" using assms by simp
  then have "\<lfloor>r * real n\<rfloor> < int n" by (simp add: floor_less_iff)
  moreover have "0 \<le> \<lfloor>r * real n\<rfloor>" using a by simp
  ultimately show ?thesis by linarith
qed

lemma js_nth_in_range: "0 \<le> i \<Longrightarrow> nat i < length xs \<Longrightarrow> js_nth xs i = Some (xs ! nat i)"
  by (simp add: js_nth_def)

lemma redraw_None:
  "redraw n a b rs = None \<longleftrightarrow> a = b \<and> \<not> list_ex (\<lambda>r. \<lfloor>r * real n\<rfloor> \<noteq> a) rs"
  by (induction rs arbitrary: b) auto

lemma redraw_Some:
  "redraw n a b rs = Some b' \<Longrightarrow> b' \<noteq> a \<and> (b' = b \<or> (\<exists>r\<in>set rs. b' = \<lfloor>r * real n\<rfloor>))"
  by (induction rs arbitrary: b) (auto split: if_splits)

lemma redraw_returns:
  "(\<exists>b'. redraw n a b rs = Some b') \<longleftrightarrow> a \<noteq> b \<or> list_ex (\<lambda>r. \<lfloor>r * real n\<rfloor> \<noteq> a) rs"
  using redraw_None[of n a b rs] by (cases "redraw n a b rs") auto

lemma getNextMatch_returns:
  assumes "2 \<le> length L"
  shows "(\<exists>m. getNextMatch L draws = Some m) \<longleftrightarrow> enough_draws (length L) draws"
proof (cases draws)
  case Nil
  then show ?thesis using assms by (simp add: getNextMatch_def enough_draws_def)
next
  case (Cons r0 ds)
  show ?thesis
  proof (cases "r0 < 0.5")
    case False
    then show ?thesis using assms Cons
      by (cases ds) (simp_all add: getNextMatch_def enough_draws_def Let_def)
  next
    case True
    show ?thesis
    proof (cases ds)
      case Nil
      then show ?thesis using assms Cons True by (simp add: getNextMatch_def enough_draws_def)
    next
      case (Cons rA ds1)
      note c1 = this
      show ?thesis
      proof (cases ds1)
        case Nil
        then show ?thesis using assms \<open>draws = r0 # ds\<close> True c1
          by (simp add: getNextMatch_def enough_draws_def)
      next
        case (Cons rB ds')
        define a where "a = \<lfloor>rA * real (length L)\<rfloor>"
        define b where "b = \<lfloor>rB * real (length L)\<rfloor>"
        have "(\<exists>m. getNextMatch L draws = Some m) \<longleftrightarrow> (\<exists>b'. redraw (length L) a b ds' = Some b')"
          using assms \<open>draws = r0 # ds\<close> True c1 Cons
          by (cases "redraw (length L) a b ds'")
             (simp_all add: getNextMatch_def Let_def a_def b_def)
        also have "\<dots> \<longleftrightarrow> enough_draws (length L) draws"
          using \<open>draws = r0 # ds\<close> True c1 Cons
          by (auto simp: redraw_returns enough_draws_def a_def b_def)
        finally show ?thesis .
      qed
    qed
  qed
qed

lemma explore_pair:
  assumes n: "2 \<le> length L"
    and d: "distinct (map manga_id L)"
    and rA: "0 \<le> rA" "rA < 1"
    and rs: "\<forall>r\<in>set (rB # ds'). 0 \<le> r \<and> r < 1"
    and red: "redraw (length L) \<lfloor>rA * real (length L)\<rfloor> \<lfloor>rB * real (length L)\<rfloor> ds' = Some indexB"
  shows "\<exists>x y. js_nth L \<lfloor>rA * real (length L)\<rfloor> = Some x \<and> js_nth L indexB = Some y \<and>
           x \<in> set L \<and> y \<in> set L \<and> manga_id x \<noteq> manga_id y"
proof -
  define a where "a = \<lfloor>rA * real (length L)\<rfloor>"
  have pos: "0 < length L" using n by auto
  have ra: "0 \<le> a \<and> nat a < length L" unfolding a_def using draw_index_range[OF rA pos] .
  from redraw_Some[OF red] obtain r where
    ne: "indexB \<noteq> a" and r: "r \<in> set (rB # ds')" "indexB = \<lfloor>r * real (length L)\<rfloor>"
    unfolding a_def by auto
  have "0 \<le> r" "r < 1" using rs r(1) by auto
  then have rb: "0 \<le> indexB \<and> nat indexB < length L"
    unfolding r(2) using draw_index_range[of r "length L"] pos by simp
  have neq: "nat a \<noteq> nat indexB" using ne ra rb by linarith
  have "manga_id (L ! nat a) \<noteq> manga_id (L ! nat indexB)"
    using distinct_ids_nth[OF d _ _ neq] ra rb by simp
  moreover have "js_nth L a = Some (L ! nat a)" using ra by (simp add: js_nth_in_range)
  moreover have "js_nth L indexB = Some (L ! nat indexB)" using rb by (simp add: js_nth_in_range)
  ultimately show ?thesis using ra rb unfolding a_def[symmetric] by simp
qed

lemma exploit_index_range:
  assumes "2 \<le> n" "0 \<le> r" "r < 1"
  shows "0 \<le> \<lfloor>r * real (n - 1)\<rfloor> \<and> nat \<lfloor>r * real (n - 1)\<rfloor> + 1 < n"
  using draw_index_range[of r "n - 1"] assms by auto

lemma exploit_pair:
  assumes n: "2 \<le> length L" and r1: "0 \<le> r1" "r1 < 1"
  defines "sortedList \<equiv> js_sort (\<lambda>a b. elo a - elo b) L"
  defines "i \<equiv> nat \<lfloor>r1 * real (length L - 1)\<rfloor>"
  shows "js_nth sortedList \<lfloor>r1 * real (length sortedList - 1)\<rfloor> = Some (sortedList ! i) \<and>
         js_nth sortedList (\<lfloor>r1 * real (length sortedList - 1)\<rfloor> + 1) = Some (sortedList ! (i + 1)) \<and>
         i + 1 < length L"
proof -
  define f where "f = \<lfloor>r1 * real (length L - 1)\<rfloor>"
  have len: "length sortedList = length L" by (simp add: sortedList_def length_js_sort)
  have rg: "0 \<le> f \<and> nat f + 1 < length L"
    unfolding f_def using exploit_index_range[OF n r1] .
  have i: "i = nat f" by (simp only: i_def f_def)
  have i1: "nat (f + 1) = nat f + 1" using rg by linarith
  have "js_nth sortedList f = Some (sortedList ! nat f)"
    using rg by (intro js_nth_in_range) (simp_all add: len)
  moreover have "js_nth sortedList (f + 1) = Some (sortedList ! nat (f + 1))"
    using rg by (intro js_nth_in_range) (simp_all add: len i1)
  ultimately show ?thesis using rg unfolding len f_def[symmetric] i i1 by simp
qed


lemma floor_index_interval:
  assumes "0 < m" "0 \<le> r"
  shows "nat \<lfloor>r * real m\<rfloor> = k \<longleftrightarrow> real k / real m \<le> r \<and> r < (real k + 1) / real m"
proof -
  have nn: "0 \<le> \<lfloor>r * real m\<rfloor>" using assms by simp
  have "nat \<lfloor>r * real m\<rfloor> = k \<longleftrightarrow> \<lfloor>r * real m\<rfloor> = int k" using nn by linarith
  also have "\<dots> \<longleftrightarrow> real k \<le> r * real m \<and> r * real m < real k + 1"
    by (simp add: floor_eq_iff)
  also have "\<dots> \<longleftrightarrow> real k / real m \<le> r \<and> r < (real k + 1) / real m"
    using assms(1) by (simp add: field_simps)
  finally show ?thesis .
qed

text \<open>
  Claim C6. On a list of at least two entries with pairwise distinct ids, and for all draws
  in the range of \<^verbatim>\<open>Math.random()\<close>, every match that \<^verbatim>\<open>getNextMatch\<close> sets holds two entries
  of the list with different ids. The function returns exactly when the draws are enough:
  in the first branch the loop draws again while the two indices collide, and ends at the
  first draw that gives another index.
\<close>

theorem C6_pair_distinct:
  assumes "2 \<le> length L"
    and "distinct (map manga_id L)"
    and "\<forall>r\<in>set draws. 0 \<le> r \<and> r < 1"
  shows "((\<exists>m. getNextMatch L draws = Some m) \<longleftrightarrow> enough_draws (length L) draws) \<and>
         (\<forall>m. getNextMatch L draws = Some m \<longrightarrow>
            (\<exists>x y. m = Some \<lparr>match_a = Some x, match_b = Some y\<rparr> \<and>
                   x \<in> set L \<and> y \<in> set L \<and> manga_id x \<noteq> manga_id y))"
proof (intro conjI allI impI)
  show "(\<exists>m. getNextMatch L draws = Some m) \<longleftrightarrow> enough_draws (length L) draws"
    using assms(1) by (rule getNextMatch_returns)
next
  fix m
  assume res: "getNextMatch L draws = Some m"
  define sortedList where "sortedList = js_sort (\<lambda>a b. elo a - elo b) L"
  from res assms(1) obtain r0 ds where dr: "draws = r0 # ds"
    by (cases draws) (simp_all add: getNextMatch_def)
  show "\<exists>x y. m = Some \<lparr>match_a = Some x, match_b = Some y\<rparr> \<and>
          x \<in> set L \<and> y \<in> set L \<and> manga_id x \<noteq> manga_id y"
  proof (cases "r0 < 0.5")
    case True
    from res assms(1) dr True obtain rA rB ds' where ds: "ds = rA # rB # ds'"
      by (cases ds; cases "tl ds") (simp_all add: getNextMatch_def)
    define a where "a = \<lfloor>rA * real (length L)\<rfloor>"
    define b where "b = \<lfloor>rB * real (length L)\<rfloor>"
    from res assms(1) dr True ds obtain indexB where
      red: "redraw (length L) a b ds' = Some indexB" and
      m: "m = Some \<lparr>match_a = js_nth L a, match_b = js_nth L indexB\<rparr>"
      by (cases "redraw (length L) a b ds'")
         (auto simp: getNextMatch_def Let_def a_def b_def)
    have rA: "0 \<le> rA" "rA < 1" using assms(3) dr ds by simp_all
    have rs: "\<forall>r\<in>set (rB # ds'). 0 \<le> r \<and> r < 1" using assms(3) dr ds by simp
    from explore_pair[OF assms(1,2) rA rs red[unfolded a_def b_def]]
    show ?thesis unfolding m a_def by blast
  next
    case False
    from res assms(1) dr False obtain r1 ds' where ds: "ds = r1 # ds'"
      by (cases ds) (simp_all add: getNextMatch_def)
    have r1: "0 \<le> r1" "r1 < 1" using assms(3) dr ds by simp_all
    define i where "i = nat \<lfloor>r1 * real (length L - 1)\<rfloor>"
    note ep = exploit_pair[OF assms(1) r1, folded sortedList_def i_def]
    have m: "m = Some \<lparr>match_a = Some (sortedList ! i), match_b = Some (sortedList ! (i + 1))\<rparr>"
      using res assms(1) dr False ds ep
      by (simp add: getNextMatch_def Let_def sortedList_def[symmetric])
    have len: "length sortedList = length L" by (simp add: sortedList_def length_js_sort)
    have dist: "distinct (map manga_id sortedList)"
      unfolding sortedList_def using assms(2) by (rule distinct_ids_js_sort)
    have lt: "i < length sortedList" "i + 1 < length sortedList" using ep by (simp_all add: len)
    have ne: "manga_id (sortedList ! i) \<noteq> manga_id (sortedList ! (i + 1))"
      using distinct_ids_nth[OF dist lt] by simp
    have "sortedList ! i \<in> set L" "sortedList ! (i + 1) \<in> set L"
      using lt nth_mem[of _ sortedList] by (simp_all add: sortedList_def set_js_sort)
    then show ?thesis using m ne by blast
  qed
qed

text \<open>
  Claim C7. On a list of fewer than two entries \<^verbatim>\<open>getNextMatch\<close> sets the match to null,
  whatever the draws, and the view then shows the notice that two entries are needed.
\<close>

theorem C7_insufficient_entries:
  assumes "length L < 2"
  shows "getNextMatch L draws = Some None \<and> renderVoteView L None = NeedTwoEntries"
  using assms by (simp add: getNextMatch_def renderVoteView_def)

text \<open>
  Claim C8. When the first draw is not below 0.5, on a list of \<open>n \<ge> 2\<close> entries, the match is
  the pair of neighbours \<open>sortedList ! i\<close> and \<open>sortedList ! (i + 1)\<close> of the list sorted
  ascending by rating (a permutation of the list), with \<open>i = \<lfloor>r1 * (n - 1)\<rfloor>\<close> in \<open>[0, n - 2]\<close>.
  The index is \<open>k\<close> exactly for the draws in \<open>[k / (n - 1), (k + 1) / (n - 1))\<close>: intervals of
  the same length, so a uniform draw gives a uniform index.
\<close>

theorem C8_exploitation:
  assumes "2 \<le> length L" and "\<not> r0 < 0.5" and "0 \<le> r1" and "r1 < 1"
  shows "let sortedList = js_sort (\<lambda>a b. elo a - elo b) L;
             i = nat \<lfloor>r1 * real (length L - 1)\<rfloor>
         in getNextMatch L (r0 # r1 # ds) =
              Some (Some \<lparr>match_a = Some (sortedList ! i), match_b = Some (sortedList ! (i + 1))\<rparr>) \<and>
            i \<le> length L - 2 \<and>
            sorted_wrt (\<lambda>x y. elo x \<le> elo y) sortedList \<and>
            mset sortedList = mset L \<and>
            (\<forall>k. i = k \<longleftrightarrow>
               real k / real (length L - 1) \<le> r1 \<and> r1 < (real k + 1) / real (length L - 1))"
proof -
  define sortedList where "sortedList = js_sort (\<lambda>a b. elo a - elo b) L"
  define i where "i = nat \<lfloor>r1 * real (length L - 1)\<rfloor>"
  note ep = exploit_pair[OF assms(1,3,4), folded sortedList_def i_def]
  have g: "getNextMatch L (r0 # r1 # ds) =
      Some (Some \<lparr>match_a = Some (sortedList ! i), match_b = Some (sortedList ! (i + 1))\<rparr>)"
    using assms(1,2) ep by (simp add: getNextMatch_def Let_def sortedList_def[symmetric])
  have le: "i \<le> length L - 2" using ep by linarith
  have so: "sorted_wrt (\<lambda>x y. elo x \<le> elo y) sortedList"
    unfolding sortedList_def by (rule sorted_js_sort)
  have pm: "mset sortedList = mset L" unfolding sortedList_def by (rule mset_js_sort)
  have m: "0 < length L - 1" using assms(1) by linarith
  have iv: "\<forall>k. i = k \<longleftrightarrow>
      real k / real (length L - 1) \<le> r1 \<and> r1 < (real k + 1) / real (length L - 1)"
    unfolding i_def using floor_index_interval[OF m assms(3)] by blast
  show ?thesis
    unfolding Let_def sortedList_def[symmetric] i_def[symmetric]
    using g le so pm iv by blast
qed

lemma explore_example:
  "getNextMatch three_entries [1 / 4, 0, 1 / 8, 1 / 2] =
     Some (Some \<lparr>match_a = Some (entry ''m1'' 1520), match_b = Some (entry ''m2'' 1480)\<rparr>)"
  by (simp add: getNextMatch_def three_entries_def js_nth_def Let_def)

lemma three_entries_sorted:
  "js_sort (\<lambda>a b. elo a - elo b) three_entries = [entry ''m2'' 1480, entry ''m3'' 1500, entry ''m1'' 1520]"
  by (simp add: js_sort_def three_entries_def entry_def)

text \<open>
  The three results at concrete inputs: a list of one entry; the list of three entries with
  the draws 3/4 (second branch) and 1/2 (index 1 of the sorted list); the same list with the
  draws 1/4 (first branch), 0 and 1/8 (both index 0, a collision) and 1/2 (index 1).
\<close>

theorem C7_insufficient_entries_witness:
  "length [entry ''m1'' 1500] < 2 \<and>
   getNextMatch [entry ''m1'' 1500] [1 / 4, 0, 1 / 2] = Some None \<and>
   renderVoteView [entry ''m1'' 1500] None = NeedTwoEntries"
  using C7_insufficient_entries[of "[entry ''m1'' 1500]" "[1 / 4, 0, 1 / 2]"] by simp

theorem C8_exploitation_witness:
  "2 \<le> length three_entries \<and> \<not> (3 / 4 :: real) < 0.5 \<and> (0::real) \<le> 1 / 2 \<and> (1 / 2 :: real) < 1 \<and>
   getNextMatch three_entries [3 / 4, 1 / 2] =
     Some (Some \<lparr>match_a = Some (entry ''m3'' 1500), match_b = Some (entry ''m1'' 1520)\<rparr>)"
  using C8_exploitation[of three_entries "3 / 4" "1 / 2" "[]"]
  by (simp add: three_entries_sorted Let_def) (simp add: three_entries_def)

theorem C6_pair_distinct_witness:
  "2 \<le> length three_entries \<and> distinct (map manga_id three_entries) \<and>
   list_all (\<lambda>r. 0 \<le> r \<and> r < 1) [1 / 4, 0, 1 / 8, 1 / 2 :: real] \<and>
   enough_draws (length three_entries) [1 / 4, 0, 1 / 8, 1 / 2] \<and>
   getNextMatch three_entries [1 / 4, 0, 1 / 8, 1 / 2] =
     Some (Some \<lparr>match_a = Some (entry ''m1'' 1520), match_b = Some (entry ''m2'' 1480)\<rparr>) \<and>
   manga_id (entry ''m1'' 1520) \<noteq> manga_id (entry ''m2'' 1480)"
proof -
  have h1: "2 \<le> length three_entries" by (simp add: three_entries_def)
  have h2: "distinct (map manga_id three_entries)" by (simp add: three_entries_def entry_def)
  have h3: "\<forall>r\<in>set [1 / 4, 0, 1 / 8, 1 / 2 :: real]. 0 \<le> r \<and> r < 1" by simp
  note g = explore_example
  from C6_pair_distinct[OF h1 h2 h3] g
  have "enough_draws (length three_entries) [1 / 4, 0, 1 / 8, 1 / 2]"
    and "manga_id (entry ''m1'' 1520) \<noteq> manga_id (entry ''m2'' 1480)"
    by auto
  then show ?thesis using h1 h2 g by simp
qed

section \<open>Properties of the vote and delete handlers\<close>

lemma vote_transaction_found:
  assumes "store winnerId = Some winner" "store loserId = Some loser"
  shows "vote_transaction winnerId loserId store =
    Inr [(winnerId, updateElo (real_of_int (elo winner))
                      (calculateExpected (real_of_int (elo winner)) (real_of_int (elo loser))) 1),
         (loserId, updateElo (real_of_int (elo loser))
                      (calculateExpected (real_of_int (elo loser)) (real_of_int (elo winner))) 0)]"
  using assms by (simp add: vote_transaction_def Let_def)

lemma vote_transaction_missing:
  assumes "store winnerId = None \<or> store loserId = None"
  shows "vote_transaction winnerId loserId store = Inl DocNotFound"
  using assms by (auto simp: vote_transaction_def split: option.splits)

lemma vote_transaction_Inr:
  assumes "vote_transaction winnerId loserId store = Inr writes"
  shows "\<exists>winner loser. store winnerId = Some winner \<and> store loserId = Some loser"
  using assms by (auto simp: vote_transaction_def split: option.splits)

lemma two_updates:
  assumes "store winnerId = Some winner" "store loserId = Some loser"
  shows "foldl transaction_update store [(winnerId, x), (loserId, y)] =
         store(winnerId \<mapsto> winner\<lparr>elo := x\<rparr>, loserId \<mapsto> loser\<lparr>elo := y\<rparr>)"
proof (cases "winnerId = loserId")
  case True
  then have "winner = loser" using assms by simp
  then show ?thesis using assms True by (simp add: transaction_update_def)
next
  case False
  then show ?thesis using assms by (simp add: transaction_update_def)
qed

lemma handleVote_db:
  "db (handleVote ok s winnerId loserId) =
     (case runTransaction ok (db s) (vote_transaction winnerId loserId) of
        Inr store' \<Rightarrow> store' | Inl e \<Rightarrow> db s)"
  by (simp add: handleVote_def Let_def split: sum.splits)

text \<open>
  Claim C4. Whenever the transaction of a vote commits, both documents were found in the
  store the transaction ran on, the two writes carry \<open>updateElo w (calculateExpected w l) 1\<close>
  and \<open>updateElo l (calculateExpected l w) 0\<close> for the ratings \<open>w\<close> and \<open>l\<close> read there (both
  computed from the ratings before the update), and the committed store is the result,
  whatever the snapshot \<open>mangaList\<close> held by the client.
\<close>

theorem C4_vote_commit:
  assumes "runTransaction ok (db s) (vote_transaction winnerId loserId) = Inr store'"
  shows "\<exists>winner loser newWinnerElo newLoserElo.
           db s winnerId = Some winner \<and> db s loserId = Some loser \<and>
           newWinnerElo = updateElo (real_of_int (elo winner))
               (calculateExpected (real_of_int (elo winner)) (real_of_int (elo loser))) 1 \<and>
           newLoserElo = updateElo (real_of_int (elo loser))
               (calculateExpected (real_of_int (elo loser)) (real_of_int (elo winner))) 0 \<and>
           vote_transaction winnerId loserId (db s) =
               Inr [(winnerId, newWinnerElo), (loserId, newLoserElo)] \<and>
           store' = (db s)(winnerId \<mapsto> winner\<lparr>elo := newWinnerElo\<rparr>,
                           loserId \<mapsto> loser\<lparr>elo := newLoserElo\<rparr>) \<and>
           db (handleVote ok (s\<lparr>mangaList := cached\<rparr>) winnerId loserId) = store'"
proof -
  from assms obtain writes where
    ok: "ok" and w: "vote_transaction winnerId loserId (db s) = Inr writes"
      and st: "store' = foldl transaction_update (db s) writes"
    by (auto simp: runTransaction_def split: if_splits sum.splits)
  from vote_transaction_Inr[OF w] obtain winner loser where
    f: "db s winnerId = Some winner" "db s loserId = Some loser" by blast
  note vt = vote_transaction_found[OF f]
  have "db (handleVote ok (s\<lparr>mangaList := cached\<rparr>) winnerId loserId) = store'"
    using assms by (simp add: handleVote_db)
  then show ?thesis using f vt w st two_updates[OF f] by simp
qed

text \<open>
  Claim C5. When one of the two documents is missing in the store the transaction runs on,
  the transaction throws the not-found error, the store (and so the rating of the document
  that is still there) and the blobs are unchanged, and the error is reported in the message.
\<close>

theorem C5_stale_match:
  assumes "db s winnerId = None \<or> db s loserId = None"
  shows "vote_transaction winnerId loserId (db s) = Inl DocNotFound \<and>
         db (handleVote ok s winnerId loserId) = db s \<and>
         storage (handleVote ok s winnerId loserId) = storage s \<and>
         message (handleVote ok s winnerId loserId) =
           Some \<lparr>msg_type = MsgError,
                 msg_text = VoteFailed (if ok then DocNotFound else ServiceError)\<rparr>"
  using vote_transaction_missing[OF assms]
  by (simp add: handleVote_def runTransaction_def Let_def)

lemma handleDelete_cases:
  assumes "db s id' = Some mangaData"
  shows "handleDelete calls s id' password' =
    (if \<not> getDoc_ok calls then delete_failed (s\<lparr>isLoading := True\<rparr>) ServiceError
     else if password mangaData \<noteq> password' then
       (s\<lparr>isLoading := False, message := Some \<lparr>msg_type = MsgError, msg_text = WrongPassword\<rparr>\<rparr>, False)
     else if \<not> deleteObject_ok calls then delete_failed (s\<lparr>isLoading := True\<rparr>) ServiceError
     else if \<not> deleteDoc_ok calls then
       delete_failed (s\<lparr>isLoading := True, storage := storage s - {storagePath mangaData}\<rparr>) ServiceError
     else
       (s\<lparr>isLoading := False, storage := storage s - {storagePath mangaData},
          db := (db s)(id' := None),
          message := Some \<lparr>msg_type = MsgSuccess, msg_text = Deleted\<rparr>\<rparr>, True))"
  using assms
  by (simp add: handleDelete_def getDoc_def deleteObject_def deleteDoc_def Let_def)

text \<open>
  Claim C9, as stated, fails: \<^verbatim>\<open>handleDelete\<close> deletes the blob first and the document
  second. When \<^verbatim>\<open>deleteDoc\<close> is rejected after \<^verbatim>\<open>deleteObject\<close> went through, the document
  is still in the store and its blob is gone.
\<close>

theorem C9_delete_order_counterexample:
  "db two_docs ''m1'' \<noteq> None \<and> ''img/m1'' \<in> storage two_docs \<and>
   db (fst (handleDelete \<lparr>getDoc_ok = True, deleteObject_ok = True, deleteDoc_ok = False\<rparr>
              two_docs ''m1'' ''1234'')) ''m1'' \<noteq> None \<and>
   ''img/m1'' \<notin> storage (fst (handleDelete \<lparr>getDoc_ok = True, deleteObject_ok = True, deleteDoc_ok = False\<rparr>
              two_docs ''m1'' ''1234''))"
  by (simp add: handleDelete_def getDoc_def deleteObject_def deleteDoc_def Let_def
        delete_failed_def two_docs_def stored_doc_def)

text \<open>
  Claim C9, amended. For a document that exists, \<^verbatim>\<open>handleDelete\<close> returns true exactly when
  the password matches and all three calls go through. The blob is removed as soon as the
  password matches and \<^verbatim>\<open>getDoc\<close> and \<^verbatim>\<open>deleteObject\<close> go through; the document is removed
  only when \<^verbatim>\<open>deleteDoc\<close> goes through as well. So a document can stay without its blob,
  and a document that is gone never leaves its blob behind.
\<close>

theorem C9_delete_order_amended:
  assumes "db s id' = Some mangaData"
  shows "case handleDelete calls s id' password' of (s', deleted) \<Rightarrow>
      (deleted \<longleftrightarrow> getDoc_ok calls \<and> password mangaData = password' \<and>
                    deleteObject_ok calls \<and> deleteDoc_ok calls) \<and>
      storage s' = (if getDoc_ok calls \<and> password mangaData = password' \<and> deleteObject_ok calls
                    then storage s - {storagePath mangaData} else storage s) \<and>
      db s' = (if deleted then (db s)(id' := None) else db s) \<and>
      (db s' id' = None \<longrightarrow> storagePath mangaData \<notin> storage s')"
  unfolding handleDelete_cases[OF assms]
  by (simp add: delete_failed_def assms)

text \<open>
  The results at the state of two documents rated 1500: a vote for \<open>m1\<close> over \<open>m2\<close> (the
  snapshot of the client holds other ratings), a vote against the missing \<open>m3\<close>, and a
  deletion of \<open>m1\<close> with its password.
\<close>

theorem C4_vote_commit_witness:
  "runTransaction True (db two_docs) (vote_transaction ''m1'' ''m2'') =
     Inr ((db two_docs)(''m1'' \<mapsto> stored_doc ''1234'' ''img/m1'' 1516,
                        ''m2'' \<mapsto> stored_doc ''5678'' ''img/m2'' 1484)) \<and>
   db (handleVote True two_docs ''m1'' ''m2'') =
     (db two_docs)(''m1'' \<mapsto> stored_doc ''1234'' ''img/m1'' 1516,
                   ''m2'' \<mapsto> stored_doc ''5678'' ''img/m2'' 1484)"
proof -
  have e: "calculateExpected 1500 1500 = 1 / 2" by (simp add: calculateExpected_def)
  have h: "runTransaction True (db two_docs) (vote_transaction ''m1'' ''m2'') =
     Inr ((db two_docs)(''m1'' \<mapsto> stored_doc ''1234'' ''img/m1'' 1516,
                        ''m2'' \<mapsto> stored_doc ''5678'' ''img/m2'' 1484))"
    by (simp add: runTransaction_def vote_transaction_def transaction_update_def Let_def
          two_docs_def stored_doc_def e updateElo_def K_FACTOR_def)
  from C4_vote_commit[OF h, of "mangaList two_docs"]
  have "db (handleVote True two_docs ''m1'' ''m2'') =
     (db two_docs)(''m1'' \<mapsto> stored_doc ''1234'' ''img/m1'' 1516,
                   ''m2'' \<mapsto> stored_doc ''5678'' ''img/m2'' 1484)"
    by (elim exE conjE) simp
  then show ?thesis using h by simp
qed

theorem C5_stale_match_witness:
  "(db two_docs ''m1'' = None \<or> db two_docs ''m3'' = None) \<and>
   db (handleVote True two_docs ''m1'' ''m3'') = db two_docs \<and>
   map_option elo (db (handleVote True two_docs ''m1'' ''m3'') ''m1'') = Some 1500 \<and>
   message (handleVote True two_docs ''m1'' ''m3'') =
     Some \<lparr>msg_type = MsgError, msg_text = VoteFailed DocNotFound\<rparr>"
proof -
  have h: "db two_docs ''m1'' = None \<or> db two_docs ''m3'' = None" by (simp add: two_docs_def)
  from C5_stale_match[OF h, of True] show ?thesis using h
    by (simp add: two_docs_def stored_doc_def)
qed

theorem C9_delete_order_amended_witness:
  "db two_docs ''m1'' = Some (stored_doc ''1234'' ''img/m1'' 1500) \<and>
   snd (handleDelete \<lparr>getDoc_ok = True, deleteObject_ok = True, deleteDoc_ok = True\<rparr>
          two_docs ''m1'' ''1234'') \<and>
   storage (fst (handleDelete \<lparr>getDoc_ok = True, deleteObject_ok = True, deleteDoc_ok = True\<rparr>
          two_docs ''m1'' ''1234'')) = {''img/m2''} \<and>
   db (fst (handleDelete \<lparr>getDoc_ok = True, deleteObject_ok = True, deleteDoc_ok = True\<rparr>
          two_docs ''m1'' ''1234'')) ''m1'' = None"
proof -
  have h: "db two_docs ''m1'' = Some (stored_doc ''1234'' ''img/m1'' 1500)"
    by (simp add: two_docs_def)
  from C9_delete_order_amended[OF h,
      of "\<lparr>getDoc_ok = True, deleteObject_ok = True, deleteDoc_ok = True\<rparr>" "''1234''"]
  show ?thesis using h
    by (auto simp: stored_doc_def two_docs_def split: prod.splits)
qed

end
